theory Spec2Isabelle
  imports Complex_Main
begin

section \<open>The opponent model and the learning model of ADAgent\<close>

text \<open>
  A shallow embedding of \<^verbatim>\<open>agents/ada_agent/opponent_model.py\<close> and
  \<^verbatim>\<open>agents/ada_agent/learning_model.py\<close>.

  Conventions of the embedding.
  \<^item> A Python \<^verbatim>\<open>float\<close> is a \<^typ>\<open>real\<close>: the arithmetic is exact, there is
    no rounding, no infinity and no NaN. Division by \<open>0.0\<close> raises in Python and is
    written out as \<open>ZeroDivisionError\<close>.
  \<^item> A Python \<^verbatim>\<open>dict\<close> whose iteration order is used is an association list in
    insertion order; the Q-table, which is only read and written by key, is a map.
  \<^item> A method that mutates \<^verbatim>\<open>self\<close> takes the object and returns the updated one.
    A call that raises returns \<open>Inl\<close> of the exception; the object a raising call
    leaves behind is not part of the result.
  \<^item> The values of the negotiation domain are an arbitrary type \<open>'v\<close>, compared by
    equality. \<^verbatim>\<open>Bid.getValue(issue)\<close> yields \<^verbatim>\<open>None\<close> for an issue the bid does not
    mention, so a bid is a partial map from issue names to values.
  \<^item> The elapsed-time fraction \<^verbatim>\<open>get_time(self.progress)\<close> is read from a clock by
    a helper outside these two files; it is the argument \<open>t\<close> of the operations that
    read it.
\<close>

subsection \<open>Exceptions\<close>

text \<open>
  The exceptions the two files can raise. \<open>MissingValueError\<close> is the name the
  specification gives to the lookup of an unknown value; no source path raises it.
\<close>

datatype error =
    AttributeError
  | IndexError
  | KeyError
  | ValueError
  | ZeroDivisionError
  | OSError
  | UnpicklingError
  | MissingValueError

subsection \<open>Dictionaries in insertion order\<close>

text \<open>\<^verbatim>\<open>d[k] = v\<close>: an existing key keeps its position, a new key goes last.\<close>

fun dict_set :: "('k \<times> 'a) list \<Rightarrow> 'k \<Rightarrow> 'a \<Rightarrow> ('k \<times> 'a) list" where
  "dict_set [] k v = [(k, v)]"
| "dict_set ((k', v') # rest) k v =
     (if k' = k then (k', v) # rest else (k', v') # dict_set rest k v)"

text \<open>\<^verbatim>\<open>{k: v for k, v in kvs}\<close>\<close>

definition dict_comp :: "('k \<times> 'a) list \<Rightarrow> ('k \<times> 'a) list" where
  "dict_comp kvs = foldl (\<lambda>d (k, v). dict_set d k v) [] kvs"

text \<open>\<^verbatim>\<open>max(xs)\<close>: \<open>ValueError\<close> on an empty sequence; otherwise the first item is
  the candidate and a later item replaces it when it is greater.\<close>

definition py_max :: "real list \<Rightarrow> error + real" where
  "py_max xs =
     (case xs of
        [] \<Rightarrow> Inl ValueError
      | x # ys \<Rightarrow> Inr (foldl (\<lambda>m y. if y > m then y else m) x ys))"

subsection \<open>Bids and domains\<close>

type_synonym 'v bid = "string \<rightharpoonup> 'v"

text \<open>
  The domain in its enumeration order: each issue name with its discrete value set, the
  values in iteration order. \<^verbatim>\<open>getIssuesValues()\<close> is the list itself.
\<close>

type_synonym 'v domain = "(string \<times> 'v list) list"

definition getIssues :: "'v domain \<Rightarrow> string list" where
  "getIssues d = map fst d"

definition getValues :: "'v domain \<Rightarrow> string \<Rightarrow> error + 'v list" where
  "getValues d issue_name =
     (case map_of d issue_name of None \<Rightarrow> Inl KeyError | Some vs \<Rightarrow> Inr vs)"

subsection \<open>Class Issue\<close>

record 'v issue =
  weight :: real
  value_weights :: "('v \<times> real) list"

text \<open>The class attribute \<^verbatim>\<open>weight = 1.0\<close> and the constructor's
  \<^verbatim>\<open>{value: 0.0 + 1e-10 for value in values}\<close>.\<close>

definition Issue_init :: "'v list \<Rightarrow> 'v issue" where
  "Issue_init vals =
     \<lparr>weight = 1, value_weights = dict_comp (map (\<lambda>v. (v, 0 + 1 / 10 ^ 10)) vals)\<rparr>"

definition Issue_update :: "'v issue \<Rightarrow> 'v option \<Rightarrow> error + 'v issue" where
  "Issue_update i val =
     (case val of
        None \<Rightarrow> Inr i
      | Some v \<Rightarrow>
          (case map_of (value_weights i) v of
             None \<Rightarrow> Inl KeyError
           | Some w \<Rightarrow> Inr (i\<lparr>value_weights := dict_set (value_weights i) v (w + 1)\<rparr>)))"

definition Issue_get_utility :: "'v issue \<Rightarrow> 'v option \<Rightarrow> error + real" where
  "Issue_get_utility i val =
     (case val of
        None \<Rightarrow> Inr 0
      | Some v \<Rightarrow>
          (case map_of (value_weights i) v of
             None \<Rightarrow> Inl KeyError
           | Some w \<Rightarrow> Inr (weight i * w)))"

subsection \<open>Class OpponentModel\<close>

type_synonym 'v state = "'v option \<times> 'v option"

type_synonym 'v qtable = "('v state \<times> 'v option) \<rightharpoonup> real"

record 'v opponent_model =
  domain :: "'v domain"
  alpha :: real
  gamma :: real
  offers :: "'v bid list"
  issues :: "(string \<times> 'v issue) list"
  q_table :: "'v qtable"

text \<open>\<^verbatim>\<open>self.q_table.get(key, 0.0)\<close>\<close>

definition q_get :: "'v qtable \<Rightarrow> 'v state \<times> 'v option \<Rightarrow> real" where
  "q_get q key = (case q key of None \<Rightarrow> 0 | Some x \<Rightarrow> x)"

subsubsection \<open>normalize\<close>

text \<open>The inner loop \<^verbatim>\<open>issue_obj.value_weights[value_name] /= max_val\<close>.\<close>

fun divide_values :: "real \<Rightarrow> ('v \<times> real) list \<Rightarrow> error + ('v \<times> real) list" where
  "divide_values max_val [] = Inr []"
| "divide_values max_val ((v, w) # rest) =
     (if max_val = 0 then Inl ZeroDivisionError
      else (case divide_values max_val rest of
              Inl e \<Rightarrow> Inl e
            | Inr rest' \<Rightarrow> Inr ((v, w / max_val) # rest')))"

text \<open>The first loop, with \<open>tiw\<close> for \<^verbatim>\<open>total_issue_weight\<close>: it adds the issue's
  weight to the running sum, takes the maximum of the issue's value weights and divides
  each of them by it.\<close>

fun normalize_values ::
  "real \<Rightarrow> (string \<times> 'v issue) list \<Rightarrow> error + (real \<times> (string \<times> 'v issue) list)" where
  "normalize_values tiw [] = Inr (tiw, [])"
| "normalize_values tiw ((issue_name, issue_obj) # rest) =
     (let tiw' = tiw + weight issue_obj in
      case py_max (map snd (value_weights issue_obj)) of
        Inl e \<Rightarrow> Inl e
      | Inr max_val \<Rightarrow>
          (case divide_values max_val (value_weights issue_obj) of
             Inl e \<Rightarrow> Inl e
           | Inr vw \<Rightarrow>
               (case normalize_values tiw' rest of
                  Inl e \<Rightarrow> Inl e
                | Inr (t, rest') \<Rightarrow>
                    Inr (t, (issue_name, issue_obj\<lparr>value_weights := vw\<rparr>) # rest'))))"

text \<open>The second loop: \<^verbatim>\<open>issue_obj.weight /= total_issue_weight\<close>.\<close>

fun normalize_weights ::
  "real \<Rightarrow> (string \<times> 'v issue) list \<Rightarrow> error + (string \<times> 'v issue) list" where
  "normalize_weights tiw [] = Inr []"
| "normalize_weights tiw ((issue_name, issue_obj) # rest) =
     (if tiw = 0 then Inl ZeroDivisionError
      else (case normalize_weights tiw rest of
              Inl e \<Rightarrow> Inl e
            | Inr rest' \<Rightarrow>
                Inr ((issue_name, issue_obj\<lparr>weight := weight issue_obj / tiw\<rparr>) # rest')))"

definition normalize :: "'v opponent_model \<Rightarrow> error + 'v opponent_model" where
  "normalize m =
     (case normalize_values 0 (issues m) of
        Inl e \<Rightarrow> Inl e
      | Inr (total_issue_weight, is1) \<Rightarrow>
          (case normalize_weights total_issue_weight is1 of
             Inl e \<Rightarrow> Inl e
           | Inr is2 \<Rightarrow> Inr (m\<lparr>issues := is2\<rparr>)))"

subsubsection \<open>The constructor\<close>

text \<open>The Q-table is assigned after \<^verbatim>\<open>self.normalize()\<close> has returned.\<close>

definition OpponentModel_init :: "'v domain \<Rightarrow> real \<Rightarrow> real \<Rightarrow> error + 'v opponent_model" where
  "OpponentModel_init d a g =
     (case normalize
             \<lparr>domain = d, alpha = a, gamma = g, offers = [],
              issues = dict_comp (map (\<lambda>(issue, vals). (issue, Issue_init vals)) d),
              q_table = Map.empty\<rparr> of
        Inl e \<Rightarrow> Inl e
      | Inr m \<Rightarrow> Inr (m\<lparr>q_table := Map.empty\<rparr>))"

subsubsection \<open>update\_issue\_weights\<close>

fun update_weights_loop ::
  "real \<Rightarrow> real \<Rightarrow> 'v bid \<Rightarrow> 'v bid \<Rightarrow> (string \<times> 'v issue) list \<Rightarrow> (string \<times> 'v issue) list" where
  "update_weights_loop a t b0 b1 [] = []"
| "update_weights_loop a t b0 b1 ((issue_name, issue_obj) # rest) =
     (issue_name,
      if b0 issue_name = b1 issue_name
      then issue_obj\<lparr>weight := weight issue_obj + a * (1 - t * 3)\<rparr>
      else issue_obj)
     # update_weights_loop a t b0 b1 rest"

definition update_issue_weights :: "'v opponent_model \<Rightarrow> real \<Rightarrow> 'v opponent_model" where
  "update_issue_weights m t =
     (if length (offers m) < 2 then m
      else
        (let last_two_bids = drop (length (offers m) - 2) (offers m) in
         m\<lparr>issues :=
             update_weights_loop (alpha m) t (last_two_bids ! 0) (last_two_bids ! 1) (issues m)\<rparr>))"

subsubsection \<open>q\_learning\_update\<close>

text \<open>\<^verbatim>\<open>bid.getValue\<close> on \<^verbatim>\<open>None\<close> raises \<open>AttributeError\<close>.\<close>

definition get_state_representation :: "'v bid option \<Rightarrow> error + 'v state" where
  "get_state_representation bid =
     (case bid of
        None \<Rightarrow> Inl AttributeError
      | Some b \<Rightarrow> Inr (b ''price'', b ''quantity''))"

text \<open>\<^verbatim>\<open>list(self.domain.getIssues())[0]\<close>\<close>

definition first_issue :: "'v domain \<Rightarrow> error + string" where
  "first_issue d = (case getIssues d of [] \<Rightarrow> Inl IndexError | k # _ \<Rightarrow> Inr k)"

text \<open>\<^verbatim>\<open>bid.getValue(list(self.domain.getIssues())[0]) if bid else None\<close>; a bid
  object is true in a condition.\<close>

definition action_of :: "'v domain \<Rightarrow> 'v bid option \<Rightarrow> error + 'v option" where
  "action_of d bid =
     (case bid of
        None \<Rightarrow> Inr None
      | Some b \<Rightarrow> (case first_issue d of Inl e \<Rightarrow> Inl e | Inr k \<Rightarrow> Inr (b k)))"

definition q_learning_update ::
  "'v opponent_model \<Rightarrow> 'v bid option \<Rightarrow> 'v bid option \<Rightarrow> real \<Rightarrow> real \<Rightarrow> real
     \<Rightarrow> error + 'v opponent_model" where
  "q_learning_update m prev_bid curr_bid reward learning_rate discount_factor =
     (case get_state_representation prev_bid of
        Inl e \<Rightarrow> Inl e
      | Inr prev_state \<Rightarrow>
     (case action_of (domain m) prev_bid of
        Inl e \<Rightarrow> Inl e
      | Inr prev_action \<Rightarrow>
     (case get_state_representation curr_bid of
        Inl e \<Rightarrow> Inl e
      | Inr curr_state \<Rightarrow>
     (case action_of (domain m) curr_bid of
        Inl e \<Rightarrow> Inl e
      | Inr curr_action \<Rightarrow>
     (let prev_q_value = q_get (q_table m) (prev_state, prev_action) in
     (case first_issue (domain m) of
        Inl e \<Rightarrow> Inl e
      | Inr issue_name \<Rightarrow>
     (case getValues (domain m) issue_name of
        Inl e \<Rightarrow> Inl e
      | Inr vals \<Rightarrow>
     (case py_max (map (\<lambda>a. q_get (q_table m) (curr_state, Some a)) vals) of
        Inl e \<Rightarrow> Inl e
      | Inr max_q_value \<Rightarrow>
          (let new_q_value =
                 (1 - learning_rate) * prev_q_value
                 + learning_rate * (reward + discount_factor * max_q_value)
           in Inr (m\<lparr>q_table :=
                      (q_table m)((prev_state, prev_action) \<mapsto> new_q_value)\<rparr>))))))))))"

subsubsection \<open>update\<close>

definition update ::
  "'v opponent_model \<Rightarrow> real \<Rightarrow> 'v bid option \<Rightarrow> 'v bid option \<Rightarrow> real \<Rightarrow> real \<Rightarrow> real
     \<Rightarrow> error + 'v opponent_model" where
  "update m t prev_bid curr_bid reward learning_rate discount_factor =
     (case prev_bid of
        None \<Rightarrow> Inr m
      | Some p \<Rightarrow>
          (case curr_bid of
             None \<Rightarrow> Inr m
           | Some c \<Rightarrow>
               q_learning_update
                 (update_issue_weights (m\<lparr>offers := offers m @ [c]\<rparr>) t)
                 prev_bid curr_bid reward learning_rate discount_factor))"

subsubsection \<open>get\_utility\<close>

fun get_utility_loop ::
  "'v bid \<Rightarrow> real \<Rightarrow> (string \<times> 'v issue) list \<Rightarrow> error + real" where
  "get_utility_loop b tot [] = Inr tot"
| "get_utility_loop b tot ((issue_name, issue_obj) # rest) =
     (case Issue_get_utility issue_obj (b issue_name) of
        Inl e \<Rightarrow> Inl e
      | Inr u \<Rightarrow> get_utility_loop b (tot + u) rest)"

text \<open>The method only reads the model: it returns a number and assigns nothing.\<close>

definition get_utility :: "'v opponent_model \<Rightarrow> 'v bid option \<Rightarrow> error + real" where
  "get_utility m bid =
     (case bid of
        None \<Rightarrow> Inr 0
      | Some b \<Rightarrow> get_utility_loop b 0 (issues m))"

subsection \<open>Class LearningModel\<close>

text \<open>
  The file system is the part of the environment the two persistence methods touch.
  \<open>writable p\<close> says whether \<^verbatim>\<open>open(p, "wb")\<close> succeeds (it fails, for one, when the
  directory of \<open>p\<close> does not exist); \<open>files p\<close> is what is stored at \<open>p\<close>, if anything:
  the pickle of a mapping, or something \<^verbatim>\<open>pickle.load\<close> cannot read.
  \<^verbatim>\<open>pickle.dump\<close> followed by \<^verbatim>\<open>pickle.load\<close> is taken to give back an equal mapping.
\<close>

datatype 'd stored = Pickled 'd | Unreadable

record 'd filesystem =
  writable :: "string \<Rightarrow> bool"
  files :: "string \<rightharpoonup> 'd stored"

record ('v, 'k, 'x) learning_model =
  received_bids :: "'v bid list"
  my_bids :: "'v bid list"
  data :: "'k \<rightharpoonup> 'x"

definition LearningModel_init :: "('v, 'k, 'x) learning_model" where
  "LearningModel_init = \<lparr>received_bids = [], my_bids = [], data = Map.empty\<rparr>"

definition receive_bid ::
  "('v, 'k, 'x) learning_model \<Rightarrow> 'v bid option \<Rightarrow> ('v, 'k, 'x) learning_model" where
  "receive_bid lm curr_bid =
     (case curr_bid of
        None \<Rightarrow> lm
      | Some b \<Rightarrow> lm\<lparr>received_bids := received_bids lm @ [b]\<rparr>)"

text \<open>\<^verbatim>\<open>f"{storage_dir}/{opponent_agent}_data.pkl"\<close>\<close>

definition snapshot_path :: "string \<Rightarrow> string \<Rightarrow> string" where
  "snapshot_path storage_dir opponent_agent =
     storage_dir @ ''/'' @ opponent_agent @ ''_data.pkl''"

definition save_data ::
  "('v, 'k, 'x) learning_model \<Rightarrow> ('k \<rightharpoonup> 'x) filesystem \<Rightarrow> string option \<Rightarrow> string option
     \<Rightarrow> error + ('k \<rightharpoonup> 'x) filesystem" where
  "save_data lm fs storage_dir opponent_agent =
     (case opponent_agent of
        None \<Rightarrow> Inr fs
      | Some opp \<Rightarrow>
          (case storage_dir of
             None \<Rightarrow> Inr fs
           | Some dir \<Rightarrow>
               (if writable fs (snapshot_path dir opp)
                then Inr (fs\<lparr>files := (files fs)(snapshot_path dir opp \<mapsto> Pickled (data lm))\<rparr>)
                else Inl OSError)))"

text \<open>The result is the model, with its \<open>data\<close> replaced, and the returned mapping.\<close>

definition load_data ::
  "('v, 'k, 'x) learning_model \<Rightarrow> ('k \<rightharpoonup> 'x) filesystem \<Rightarrow> string option \<Rightarrow> string option
     \<Rightarrow> error + (('v, 'k, 'x) learning_model \<times> ('k \<rightharpoonup> 'x))" where
  "load_data lm fs storage_dir opponent_agent =
     (let lm0 = lm\<lparr>data := Map.empty\<rparr> in
      case storage_dir of
        None \<Rightarrow> Inr (lm0, data lm0)
      | Some dir \<Rightarrow>
          (case opponent_agent of
             None \<Rightarrow> Inr (lm0, data lm0)
           | Some opp \<Rightarrow>
               (case files fs (snapshot_path dir opp) of
                  None \<Rightarrow> Inr (lm0, data lm0)
                | Some Unreadable \<Rightarrow> Inl UnpicklingError
                | Some (Pickled d) \<Rightarrow> Inr (lm0\<lparr>data := d\<rparr>, d))))"

subsection \<open>Reachable opponent models\<close>

text \<open>
  The models a caller can hold: the one the constructor returns, and the ones the
  state-changing methods of the class return from a model it can hold.
  \<open>get_utility\<close> changes nothing and adds no model. A call that raises adds none
  either: what it leaves behind is outside the embedding.
\<close>

inductive reachable :: "'v opponent_model \<Rightarrow> bool" where
  constructed: "OpponentModel_init d a g = Inr m \<Longrightarrow> reachable m"
| after_update:
    "reachable m \<Longrightarrow> update m t prev_bid curr_bid reward lr df = Inr m' \<Longrightarrow> reachable m'"
| after_update_issue_weights:
    "reachable m \<Longrightarrow> reachable (update_issue_weights m t)"
| after_q_learning_update:
    "reachable m \<Longrightarrow> q_learning_update m prev_bid curr_bid reward lr df = Inr m'
       \<Longrightarrow> reachable m'"
| after_normalize:
    "reachable m \<Longrightarrow> normalize m = Inr m' \<Longrightarrow> reachable m'"

subsection \<open>Example data\<close>

text \<open>The domain of the specification's scenarios, with two bids over it, and the model
  the constructor builds for it with the default learning rate and discount factor.\<close>

definition ex_domain :: "nat domain" where
  "ex_domain = [(''price'', [10, 20, 30]), (''quantity'', [1, 2, 3])]"

definition ex_bid :: "nat bid" where
  "ex_bid = [''price'' \<mapsto> 20, ''quantity'' \<mapsto> 2]"

definition ex_bid2 :: "nat bid" where
  "ex_bid2 = [''price'' \<mapsto> 30, ''quantity'' \<mapsto> 2]"

definition ex_issues :: "(string \<times> nat issue) list" where
  "ex_issues =
     [(''price'', \<lparr>weight = 1 / 2, value_weights = [(10, 1), (20, 1), (30, 1)]\<rparr>),
      (''quantity'', \<lparr>weight = 1 / 2, value_weights = [(1, 1), (2, 1), (3, 1)]\<rparr>)]"

definition ex_model :: "nat opponent_model" where
  "ex_model =
     \<lparr>domain = ex_domain, alpha = 1 / 10, gamma = 9 / 10, offers = [],
      issues = ex_issues, q_table = Map.empty\<rparr>"

definition ex_qtable :: "nat qtable" where
  "ex_qtable = [((Some 20, Some 2), Some 20) \<mapsto> 7, ((Some 30, Some 2), Some 10) \<mapsto> 2]"

text \<open>A bid whose value on \<open>quantity\<close> is not in the domain.\<close>

definition ex_bid_unknown :: "nat bid" where
  "ex_bid_unknown = [''price'' \<mapsto> 20, ''quantity'' \<mapsto> 7]"

text \<open>A learning model with one learned fact, and a file system with no snapshot in
  which exactly the paths under \<open>/tmp/\<close> can be opened for writing.\<close>

definition ex_lm :: "(nat, string, real) learning_model" where
  "ex_lm =
     \<lparr>received_bids = [ex_bid], my_bids = [], data = [''acceptance_time'' \<mapsto> 1 / 2]\<rparr>"

definition ex_fs :: "(string \<rightharpoonup> real) filesystem" where
  "ex_fs = \<lparr>writable = (\<lambda>p. take 5 p = ''/tmp/''), files = Map.empty\<rparr>"

text \<open>Issue records with unequal weights and unequal value weights.\<close>

definition ex_issues_raw :: "(string \<times> nat issue) list" where
  "ex_issues_raw =
     [(''price'', \<lparr>weight = 3 / 5, value_weights = [(10, 1 / 4), (20, 1), (30, 1 / 2)]\<rparr>),
      (''quantity'', \<lparr>weight = 2 / 5, value_weights = [(1, 1), (2, 1 / 2), (3, 0)]\<rparr>)]"



section \<open>Properties\<close>

subsection \<open>Python's max is the maximum\<close>

lemma py_max_fold_max:
  "foldl (\<lambda>m y. if y > m then y else m) (x::real) ys = Max (set (x # ys))"
proof -
  have f: "(\<lambda>m y. if y > m then y else m) = (\<lambda>(m::real) y. max y m)"
    by (intro ext) (simp add: max_def)
  show ?thesis
    unfolding f foldl_conv_fold by (rule Max.set_eq_fold [symmetric])
qed

lemma py_max_Max: "xs \<noteq> [] \<Longrightarrow> py_max xs = Inr (Max (set xs))"
  by (cases xs) (simp_all add: py_max_def py_max_fold_max del: set_simps)

lemma py_max_Nil: "py_max [] = Inl ValueError"
  by (simp add: py_max_def)

subsection \<open>The Q-learning update\<close>

lemma q_learning_update_Some:
  assumes "domain m = (issue0, vals) # rest" and "vals \<noteq> []"
  shows "q_learning_update m (Some p) (Some c) reward lr df =
     Inr (m\<lparr>q_table := (q_table m)
        (((p ''price'', p ''quantity''), p issue0) \<mapsto>
           (1 - lr) * q_get (q_table m) ((p ''price'', p ''quantity''), p issue0)
           + lr * (reward + df *
               Max ((\<lambda>a. q_get (q_table m) ((c ''price'', c ''quantity''), Some a)) ` set vals)))\<rparr>)"
  using assms
  by (simp add: q_learning_update_def get_state_representation_def action_of_def
      first_issue_def getIssues_def getValues_def py_max_Max)

text \<open>
  C1. When the domain's first enumerated issue is \<open>issue0\<close> with the non-empty value set
  \<open>vals\<close>, \<open>q_learning_update\<close> on two non-null bids returns the model with the one
  Q-table entry at (state of \<open>prev_bid\<close>, value of \<open>prev_bid\<close> on \<open>issue0\<close>) set to
  \<open>(1 - lr) * Q[prev] + lr * (reward + df * max\<close> over all \<open>a\<close> in \<open>vals\<close> of
  \<open>Q[(state of curr_bid, a)])\<close>, where a state is the pair of the bid's values on
  \<open>price\<close> and \<open>quantity\<close>, and \<open>Q[key]\<close> is the value the prior table stores at
  \<open>key\<close>, or 0 when it stores none. Nothing else of the model changes.
\<close>

theorem q_learning_update_rule:
  assumes "domain m = (issue0, vals) # rest" and "vals \<noteq> []"
  shows "q_learning_update m (Some prev_bid) (Some curr_bid) reward lr df =
     Inr (m\<lparr>q_table := (q_table m)
        (((prev_bid ''price'', prev_bid ''quantity''), prev_bid issue0) \<mapsto>
           (1 - lr) *
             (case q_table m ((prev_bid ''price'', prev_bid ''quantity''), prev_bid issue0) of
                None \<Rightarrow> 0
              | Some x \<Rightarrow> x)
           + lr * (reward + df *
               Max ((\<lambda>a. case q_table m
                                  ((curr_bid ''price'', curr_bid ''quantity''), Some a) of
                             None \<Rightarrow> 0
                           | Some x \<Rightarrow> x) ` set vals)))\<rparr>)"
  using assms by (simp add: q_learning_update_Some q_get_def)

theorem q_learning_update_rule_witness:
  "domain (ex_model\<lparr>q_table := ex_qtable\<rparr>) =
     (''price'', [10, 20, 30]) # [(''quantity'', [1, 2, 3])]
   \<and> [10, 20, 30 :: nat] \<noteq> []
   \<and> ex_qtable ((Some 20, Some 2), Some 20) = Some 7
   \<and> ex_qtable ((Some 30, Some 2), Some 10) = Some 2
   \<and> q_learning_update (ex_model\<lparr>q_table := ex_qtable\<rparr>)
         (Some ex_bid) (Some ex_bid2) 1 (1 / 2) (9 / 10) =
       Inr (ex_model\<lparr>q_table := ex_qtable(((Some 20, Some 2), Some 20) \<mapsto> 49 / 10)\<rparr>)
   \<and> q_learning_update ex_model (Some ex_bid) (Some ex_bid2) 1 (1 / 2) (9 / 10) =
       Inr (ex_model\<lparr>q_table := [((Some 20, Some 2), Some 20) \<mapsto> 1 / 2]\<rparr>)"
proof -
  have d: "domain (ex_model\<lparr>q_table := ex_qtable\<rparr>) =
      (''price'', [10, 20, 30]) # [(''quantity'', [1, 2, 3])]"
    by (simp add: ex_model_def ex_domain_def)
  have d0: "domain ex_model = (''price'', [10, 20, 30]) # [(''quantity'', [1, 2, 3])]"
    by (simp add: ex_model_def ex_domain_def)
  have n: "[10, 20, 30 :: nat] \<noteq> []" by simp
  have q: "ex_qtable ((Some 20, Some 2), Some 20) = Some 7"
    "ex_qtable ((Some 30, Some 2), Some 10) = Some 2"
    by (simp_all add: ex_qtable_def)
  have stored: "q_learning_update (ex_model\<lparr>q_table := ex_qtable\<rparr>)
         (Some ex_bid) (Some ex_bid2) 1 (1 / 2) (9 / 10) =
       Inr (ex_model\<lparr>q_table := ex_qtable(((Some 20, Some 2), Some 20) \<mapsto> 49 / 10)\<rparr>)"
    using q_learning_update_rule [OF d n, of ex_bid ex_bid2 1 "1 / 2" "9 / 10"]
    by (simp add: ex_model_def ex_bid_def ex_bid2_def ex_qtable_def)
  have fresh: "q_learning_update ex_model (Some ex_bid) (Some ex_bid2) 1 (1 / 2) (9 / 10) =
       Inr (ex_model\<lparr>q_table := [((Some 20, Some 2), Some 20) \<mapsto> 1 / 2]\<rparr>)"
    using q_learning_update_rule [OF d0 n, of ex_bid ex_bid2 1 "1 / 2" "9 / 10"]
    by (simp add: ex_model_def ex_bid_def ex_bid2_def)
  from d n q stored fresh show ?thesis by simp
qed

text \<open>
  C5. With \<open>learning_rate = 1\<close>, under the same condition on the domain, the entry
  written by \<open>q_learning_update\<close> is exactly \<open>reward + df * max\<close> over all \<open>a\<close> in
  \<open>vals\<close> of \<open>Q[(state of curr_bid, a)]\<close>, read in the prior table: the term
  \<open>(1 - learning_rate) * Q[prev]\<close> that carries the entry's prior value is gone. Every
  other entry is as before.
\<close>

theorem q_learning_update_lr_one:
  assumes "domain m = (issue0, vals) # rest" and "vals \<noteq> []"
  shows "\<exists>m'. q_learning_update m (Some prev_bid) (Some curr_bid) reward 1 df = Inr m'
     \<and> q_table m' ((prev_bid ''price'', prev_bid ''quantity''), prev_bid issue0) =
         Some (reward + df *
               Max ((\<lambda>a. q_get (q_table m)
                             ((curr_bid ''price'', curr_bid ''quantity''), Some a)) ` set vals))
     \<and> (\<forall>key. key \<noteq> ((prev_bid ''price'', prev_bid ''quantity''), prev_bid issue0)
            \<longrightarrow> q_table m' key = q_table m key)"
  using assms by (simp add: q_learning_update_Some)

theorem q_learning_update_lr_one_witness:
  "domain (ex_model\<lparr>q_table := ex_qtable\<rparr>) =
     (''price'', [10, 20, 30]) # [(''quantity'', [1, 2, 3])]
   \<and> [10, 20, 30 :: nat] \<noteq> []
   \<and> q_get ex_qtable ((Some 20, Some 2), Some 20) = 7
   \<and> (\<exists>m'. q_learning_update (ex_model\<lparr>q_table := ex_qtable\<rparr>)
               (Some ex_bid) (Some ex_bid2) 1 1 (9 / 10) = Inr m'
        \<and> q_table m' ((Some 20, Some 2), Some 20) = Some (14 / 5))"
proof -
  have d: "domain (ex_model\<lparr>q_table := ex_qtable\<rparr>) =
      (''price'', [10, 20, 30]) # [(''quantity'', [1, 2, 3])]"
    by (simp add: ex_model_def ex_domain_def)
  have n: "[10, 20, 30 :: nat] \<noteq> []" by simp
  from q_learning_update_lr_one [OF d n, of ex_bid ex_bid2 1 "9 / 10"]
  obtain m' where
    "q_learning_update (ex_model\<lparr>q_table := ex_qtable\<rparr>)
       (Some ex_bid) (Some ex_bid2) 1 1 (9 / 10) = Inr m'"
    "q_table m' ((ex_bid ''price'', ex_bid ''quantity''), ex_bid ''price'') =
       Some (1 + 9 / 10 *
         Max ((\<lambda>a. q_get (q_table (ex_model\<lparr>q_table := ex_qtable\<rparr>))
                 ((ex_bid2 ''price'', ex_bid2 ''quantity''), Some a)) ` set [10, 20, 30]))"
    by blast
  then show ?thesis using d
    by (simp add: ex_bid_def ex_bid2_def ex_qtable_def q_get_def)
qed

subsection \<open>update\<close>

text \<open>
  C10. If \<open>prev_bid\<close> or \<open>curr_bid\<close> is \<open>None\<close>, \<open>update\<close> returns the model as it was:
  the offer log (so a first offer, arriving with \<open>prev_bid = None\<close>, is not logged),
  the issue records and the Q-table are unchanged.
\<close>

theorem update_null_bid_unchanged:
  "prev_bid = None \<or> curr_bid = None \<Longrightarrow>
   update m t prev_bid curr_bid reward lr df = Inr m"
  by (auto simp: update_def split: option.splits)

theorem update_null_bid_unchanged_witness:
  "((None :: nat bid option) = None \<or> Some ex_bid = None)
   \<and> update ex_model (1 / 10) None (Some ex_bid) 1 (1 / 2) (9 / 10) = Inr ex_model
   \<and> offers ex_model = []"
  using update_null_bid_unchanged [of None "Some ex_bid" ex_model "1 / 10" 1 "1 / 2" "9 / 10"]
  by (simp add: ex_model_def)

subsection \<open>Persistence\<close>

text \<open>
  C7. When \<open>storage_dir\<close> or the opponent identity is \<open>None\<close>, \<open>save_data\<close> returns
  without raising and leaves the file system as it was. When either is \<open>None\<close>, or
  nothing exists at the snapshot path of the pair, \<open>load_data\<close> returns without
  raising, with the model's data reset to the empty mapping and the empty mapping as its
  result.
\<close>

theorem persistence_gaps_are_silent:
  "(storage_dir = None \<or> opponent_agent = None \<longrightarrow>
      save_data lm fs storage_dir opponent_agent = Inr fs)
   \<and> (storage_dir = None \<or> opponent_agent = None
        \<or> (\<exists>dir opp. storage_dir = Some dir \<and> opponent_agent = Some opp
               \<and> files fs (snapshot_path dir opp) = None) \<longrightarrow>
      load_data lm fs storage_dir opponent_agent = Inr (lm\<lparr>data := Map.empty\<rparr>, Map.empty))"
  by (auto simp: save_data_def load_data_def Let_def split: option.splits)

theorem persistence_gaps_are_silent_witness:
  "save_data ex_lm ex_fs None (Some ''bob'') = Inr ex_fs
   \<and> save_data ex_lm ex_fs (Some ''/tmp/store'') None = Inr ex_fs
   \<and> load_data ex_lm ex_fs None (Some ''bob'') = Inr (ex_lm\<lparr>data := Map.empty\<rparr>, Map.empty)
   \<and> load_data ex_lm ex_fs (Some ''/tmp/store'') None =
        Inr (ex_lm\<lparr>data := Map.empty\<rparr>, Map.empty)
   \<and> files ex_fs (snapshot_path ''/tmp/store'' ''bob'') = None
   \<and> load_data ex_lm ex_fs (Some ''/tmp/store'') (Some ''bob'') =
        Inr (ex_lm\<lparr>data := Map.empty\<rparr>, Map.empty)"
proof -
  have f: "files ex_fs (snapshot_path ''/tmp/store'' ''bob'') = None"
    by (simp add: ex_fs_def)
  from persistence_gaps_are_silent [of None "Some ''bob''" ex_lm ex_fs]
    persistence_gaps_are_silent [of "Some ''/tmp/store''" None ex_lm ex_fs]
    persistence_gaps_are_silent [of "Some ''/tmp/store''" "Some ''bob''" ex_lm ex_fs] f
  show ?thesis by simp
qed

text \<open>
  C6, as stated, fails: \<open>save_data\<close> opens the snapshot file for writing without
  creating or checking the directory, so with a storage directory that does not exist
  the call raises and there is nothing to load.
\<close>

theorem save_to_missing_directory_counterexample:
  "save_data ex_lm ex_fs (Some ''/nodir'') (Some ''bob'') = Inl OSError
   \<and> \<not> (\<exists>fs' r. save_data ex_lm ex_fs (Some ''/nodir'') (Some ''bob'') = Inr fs'
          \<and> load_data ex_lm fs' (Some ''/nodir'') (Some ''bob'') = Inr r)"
  by (simp add: save_data_def ex_fs_def snapshot_path_def)

text \<open>
  C6, amended. For every mapping held by the model, every storage directory and every
  opponent identity for which the snapshot file can be opened for writing, \<open>save_data\<close>
  succeeds, and \<open>load_data\<close> with the same pair afterwards, by any learning model,
  returns the saved mapping and holds it as its data.
\<close>

theorem save_then_load_roundtrip:
  assumes "writable fs (snapshot_path dir opp)"
  shows "\<exists>fs'. save_data lm fs (Some dir) (Some opp) = Inr fs'
     \<and> load_data lm' fs' (Some dir) (Some opp) = Inr (lm'\<lparr>data := data lm\<rparr>, data lm)"
  using assms by (simp add: save_data_def load_data_def Let_def)

theorem save_then_load_roundtrip_witness:
  "writable ex_fs (snapshot_path ''/tmp/store'' ''bob'')
   \<and> (\<exists>fs'. save_data ex_lm ex_fs (Some ''/tmp/store'') (Some ''bob'') = Inr fs'
        \<and> load_data LearningModel_init fs' (Some ''/tmp/store'') (Some ''bob'') =
            Inr (LearningModel_init\<lparr>data := [''acceptance_time'' \<mapsto> 1 / 2]\<rparr>,
                 [''acceptance_time'' \<mapsto> 1 / 2]))"
proof -
  have w: "writable ex_fs (snapshot_path ''/tmp/store'' ''bob'')"
    by (simp add: ex_fs_def snapshot_path_def)
  from save_then_load_roundtrip [OF w, of ex_lm LearningModel_init] w
  show ?thesis by (simp add: ex_lm_def)
qed

subsection \<open>get\_utility\<close>

lemma Issue_get_utility_error: "Issue_get_utility i val = Inl e \<Longrightarrow> e = KeyError"
  by (auto simp: Issue_get_utility_def split: option.splits)

lemma get_utility_loop_KeyError:
  "(k, i) \<in> set iss \<Longrightarrow> b k = Some v \<Longrightarrow> map_of (value_weights i) v = None \<Longrightarrow>
   get_utility_loop b tot iss = Inl KeyError"
proof (induction iss arbitrary: tot)
  case Nil
  then show ?case by simp
next
  case (Cons x rest)
  obtain k' i' where x: "x = (k', i')" by (cases x)
  show ?case
  proof (cases "Issue_get_utility i' (b k')")
    case (Inl e)
    then show ?thesis using x Issue_get_utility_error [OF Inl] by simp
  next
    case (Inr u)
    have "(k, i) \<noteq> (k', i')"
      using Inr Cons.prems(2,3) by (auto simp: Issue_get_utility_def)
    with Cons.prems(1) x have "(k, i) \<in> set rest" by auto
    from Cons.IH [OF this Cons.prems(2,3)] show ?thesis using x Inr by simp
  qed
qed

text \<open>
  C8, as stated, fails: the lookup of a value that is not a key of the issue's value
  weights raises Python's \<open>KeyError\<close>, and \<open>get_utility\<close> lets it through; nothing in
  the source raises or converts to a \<open>MissingValueError\<close>.
\<close>

theorem get_utility_unknown_value_counterexample:
  "get_utility ex_model (Some ex_bid_unknown) = Inl KeyError
   \<and> get_utility ex_model (Some ex_bid_unknown) \<noteq> Inl MissingValueError"
  by (simp add: get_utility_def ex_model_def ex_issues_def ex_bid_unknown_def
      Issue_get_utility_def)

text \<open>
  C8, amended. For every bid carrying, on some issue, a value that is absent from that
  issue's value-weights mapping, \<open>get_utility\<close> returns no number: it raises
  \<open>KeyError\<close>.
\<close>

theorem get_utility_unknown_value_raises_KeyError:
  "(k, i) \<in> set (issues m) \<Longrightarrow> b k = Some v \<Longrightarrow> map_of (value_weights i) v = None \<Longrightarrow>
   get_utility m (Some b) = Inl KeyError"
  by (simp add: get_utility_def get_utility_loop_KeyError)

theorem get_utility_unknown_value_raises_KeyError_witness:
  "(''quantity'', \<lparr>weight = 1 / 2, value_weights = [(1, 1), (2, 1), (3, 1)]\<rparr>)
     \<in> set (issues ex_model)
   \<and> ex_bid_unknown ''quantity'' = Some 7
   \<and> map_of [(1 :: nat, 1 :: real), (2, 1), (3, 1)] 7 = None
   \<and> get_utility ex_model (Some ex_bid_unknown) = Inl KeyError"
proof -
  have a: "(''quantity'', \<lparr>weight = 1 / 2, value_weights = [(1, 1), (2, 1), (3, 1)]\<rparr>)
      \<in> set (issues ex_model)"
    by (simp add: ex_model_def ex_issues_def)
  have b: "ex_bid_unknown ''quantity'' = Some 7" by (simp add: ex_bid_unknown_def)
  have c: "map_of (value_weights
      \<lparr>weight = 1 / 2, value_weights = [(1 :: nat, 1 :: real), (2, 1), (3, 1)]\<rparr>) 7 = None"
    by simp
  from get_utility_unknown_value_raises_KeyError
         [of "''quantity''" "\<lparr>weight = 1 / 2, value_weights = [(1, 1), (2, 1), (3, 1)]\<rparr>"
             ex_model ex_bid_unknown 7, OF a b c] a b c
  show ?thesis by simp
qed

lemma get_utility_loop_sum:
  "\<forall>(k, i) \<in> set iss. \<exists>v. b k = Some v \<and> v \<in> fst ` set (value_weights i) \<Longrightarrow>
   get_utility_loop b tot iss =
     Inr (tot + (\<Sum>(k, i) \<leftarrow> iss. weight i * the (map_of (value_weights i) (the (b k)))))"
proof (induction iss arbitrary: tot)
  case Nil
  then show ?case by simp
next
  case (Cons x rest)
  obtain k i where x: "x = (k, i)" by (cases x)
  from Cons.prems x obtain v where v: "b k = Some v" "v \<in> fst ` set (value_weights i)"
    by auto
  then obtain w where vw: "b k = Some v" "map_of (value_weights i) v = Some w"
    by (cases "map_of (value_weights i) v") (auto simp: map_of_eq_None_iff)
  from Cons.prems
  have "\<forall>(k, i) \<in> set rest. \<exists>v. b k = Some v \<and> v \<in> fst ` set (value_weights i)"
    by simp
  from Cons.IH [OF this] show ?case
    using x vw by (simp add: Issue_get_utility_def)
qed

text \<open>
  C4. \<open>get_utility(None)\<close> returns 0. For a non-null bid that gives every issue a value
  that is a key of the issue's value weights, \<open>get_utility\<close> returns the sum, over the
  issues in their order, of the issue's weight times the value weight stored for the
  bid's value on that issue. The method returns a number only; it has no model to
  return, as it assigns nothing.
\<close>

theorem get_utility_weighted_sum:
  "get_utility m None = Inr 0
   \<and> ((\<forall>(k, i) \<in> set (issues m). \<exists>v. b k = Some v \<and> v \<in> fst ` set (value_weights i))
        \<longrightarrow> get_utility m (Some b) =
              Inr (\<Sum>(k, i) \<leftarrow> issues m.
                     weight i * the (map_of (value_weights i) (the (b k)))))"
  by (simp add: get_utility_def get_utility_loop_sum)

theorem get_utility_weighted_sum_witness:
  "get_utility (ex_model\<lparr>issues := ex_issues_raw\<rparr>) None = Inr 0
   \<and> list_all (\<lambda>(k, i). \<exists>v. ex_bid k = Some v \<and> v \<in> fst ` set (value_weights i))
        (issues (ex_model\<lparr>issues := ex_issues_raw\<rparr>))
   \<and> get_utility (ex_model\<lparr>issues := ex_issues_raw\<rparr>) (Some ex_bid) = Inr (4 / 5)"
proof -
  have d: "\<forall>(k, i) \<in> set (issues (ex_model\<lparr>issues := ex_issues_raw\<rparr>)).
      \<exists>v. ex_bid k = Some v \<and> v \<in> fst ` set (value_weights i)"
    by (simp add: ex_issues_raw_def ex_bid_def)
  from get_utility_weighted_sum [of "ex_model\<lparr>issues := ex_issues_raw\<rparr>" ex_bid] d
  have "get_utility (ex_model\<lparr>issues := ex_issues_raw\<rparr>) None = Inr 0"
    and "get_utility (ex_model\<lparr>issues := ex_issues_raw\<rparr>) (Some ex_bid) =
      Inr (\<Sum>(k, i) \<leftarrow> issues (ex_model\<lparr>issues := ex_issues_raw\<rparr>).
             weight i * the (map_of (value_weights i) (the (ex_bid k))))"
    by blast+
  then show ?thesis using d
    by (simp add: ex_issues_raw_def ex_bid_def list_all_iff)
qed

subsection \<open>update\_issue\_weights\<close>

lemma update_weights_loop_rel:
  "list_all2
     (\<lambda>(k, i) (k', i'). k' = k \<and> value_weights i' = value_weights i
        \<and> weight i' = (if b0 k = b1 k then weight i + a * (1 - 3 * t) else weight i))
     iss (update_weights_loop a t b0 b1 iss)"
  by (induction iss) (auto simp: algebra_simps)

text \<open>
  C3. With at least two logged offers, \<open>update_issue_weights\<close> keeps the issues and
  their order, keeps every value weight, adds \<open>alpha * (1 - 3 * t)\<close> to the weight of
  each issue on which the last two logged offers have the same value, keeps the weight
  of every other issue, and changes nothing else of the model. With fewer than two
  logged offers it returns the model as it was.
\<close>

theorem update_issue_weights_effect:
  "(2 \<le> length (offers m) \<longrightarrow>
      list_all2
        (\<lambda>(k, i) (k', i'). k' = k \<and> value_weights i' = value_weights i
           \<and> weight i' =
               (if (offers m ! (length (offers m) - 2)) k
                     = (offers m ! (length (offers m) - 1)) k
                then weight i + alpha m * (1 - 3 * t) else weight i))
        (issues m) (issues (update_issue_weights m t))
      \<and> update_issue_weights m t = m\<lparr>issues := issues (update_issue_weights m t)\<rparr>)
   \<and> (length (offers m) < 2 \<longrightarrow> update_issue_weights m t = m)"
proof -
  have "drop (length (offers m) - 2) (offers m) ! 0 = offers m ! (length (offers m) - 2)"
       "drop (length (offers m) - 2) (offers m) ! 1 = offers m ! (length (offers m) - 1)"
    if "2 \<le> length (offers m)"
  proof -
    from that have "Suc (length (offers m) - 2) = length (offers m) - 1" by arith
    with that
    show "drop (length (offers m) - 2) (offers m) ! 0 = offers m ! (length (offers m) - 2)"
      "drop (length (offers m) - 2) (offers m) ! 1 = offers m ! (length (offers m) - 1)"
      by simp_all
  qed
  then show ?thesis
    by (auto simp: update_issue_weights_def Let_def update_weights_loop_rel)
qed

theorem update_issue_weights_effect_witness:
  "2 \<le> length (offers (ex_model\<lparr>offers := [ex_bid, ex_bid2]\<rparr>))
   \<and> issues (update_issue_weights (ex_model\<lparr>offers := [ex_bid, ex_bid2]\<rparr>) (1 / 10)) =
       [(''price'', \<lparr>weight = 1 / 2, value_weights = [(10, 1), (20, 1), (30, 1)]\<rparr>),
        (''quantity'', \<lparr>weight = 57 / 100, value_weights = [(1, 1), (2, 1), (3, 1)]\<rparr>)]
   \<and> length (offers (ex_model\<lparr>offers := [ex_bid]\<rparr>)) < 2
   \<and> update_issue_weights (ex_model\<lparr>offers := [ex_bid]\<rparr>) (1 / 10) =
       ex_model\<lparr>offers := [ex_bid]\<rparr>"
proof -
  let ?m = "ex_model\<lparr>offers := [ex_bid, ex_bid2]\<rparr>"
  have l: "2 \<le> length (offers ?m)" by simp
  have s: "length (offers (ex_model\<lparr>offers := [ex_bid]\<rparr>)) < 2" by simp
  from update_issue_weights_effect [of ?m "1 / 10"] l
  have "list_all2
        (\<lambda>(k, i) (k', i'). k' = k \<and> value_weights i' = value_weights i
           \<and> weight i' =
               (if (offers ?m ! (length (offers ?m) - 2)) k
                     = (offers ?m ! (length (offers ?m) - 1)) k
                then weight i + alpha ?m * (1 - 3 * (1 / 10)) else weight i))
        (issues ?m) (issues (update_issue_weights ?m (1 / 10)))"
    by blast
  then have "issues (update_issue_weights ?m (1 / 10)) =
       [(''price'', \<lparr>weight = 1 / 2, value_weights = [(10, 1), (20, 1), (30, 1)]\<rparr>),
        (''quantity'', \<lparr>weight = 57 / 100, value_weights = [(1, 1), (2, 1), (3, 1)]\<rparr>)]"
    by (auto simp: ex_model_def ex_issues_def ex_bid_def ex_bid2_def list_all2_Cons1)
  moreover
  from update_issue_weights_effect [of "ex_model\<lparr>offers := [ex_bid]\<rparr>" "1 / 10"] s
  have "update_issue_weights (ex_model\<lparr>offers := [ex_bid]\<rparr>) (1 / 10) =
      ex_model\<lparr>offers := [ex_bid]\<rparr>"
    by blast
  ultimately show ?thesis using l s by blast
qed

subsection \<open>normalize\<close>

lemma divide_values_map:
  "max_val \<noteq> 0 \<Longrightarrow> divide_values max_val vw = Inr (map (\<lambda>(v, w). (v, w / max_val)) vw)"
  by (induction vw) auto





subsection \<open>The example models are reachable\<close>

lemma OpponentModel_init_ex:
  "OpponentModel_init ex_domain a g = Inr (ex_model\<lparr>alpha := a, gamma := g\<rparr>)"
  by (simp add: OpponentModel_init_def normalize_def ex_domain_def ex_model_def ex_issues_def
      dict_comp_def Issue_init_def py_max_def)





subsection \<open>The value weights of a reachable model\<close>

lemma set_dict_set: "set (dict_set d k v) \<subseteq> insert (k, v) (set d)"
  by (induction d k v rule: dict_set.induct) (auto split: if_splits)

lemma set_foldl_dict_set:
  "set (foldl (\<lambda>d (k, v). dict_set d k v) d kvs) \<subseteq> set d \<union> set kvs"
proof (induction kvs arbitrary: d)
  case Nil
  then show ?case by simp
next
  case (Cons x kvs)
  obtain k v where x: "x = (k, v)" by (cases x)
  from Cons.IH [of "dict_set d k v"] set_dict_set [of d k v] show ?case
    using x by auto
qed

lemma set_dict_comp: "set (dict_comp kvs) \<subseteq> set kvs"
  using set_foldl_dict_set [of "[]" kvs] by (simp add: dict_comp_def)

lemma Issue_init_value_weights:
  "(v, w) \<in> set (value_weights (Issue_init vals)) \<Longrightarrow> w = 1 / 10 ^ 10"
  using set_dict_comp [of "map (\<lambda>v. (v, 0 + 1 / 10 ^ 10 :: real)) vals"]
  by (auto simp: Issue_init_def)

lemma initial_issues_constant:
  assumes "(k, i) \<in> set (dict_comp (map (\<lambda>(issue, vals). (issue, Issue_init vals)) d))"
  shows "\<forall>(v, w) \<in> set (value_weights i). w = 1 / 10 ^ 10"
proof -
  from assms set_dict_comp have "(k, i) \<in> set (map (\<lambda>(issue, vals). (issue, Issue_init vals)) d)"
    by blast
  then obtain vals where "i = Issue_init vals" by auto
  then show ?thesis by (auto dest: Issue_init_value_weights)
qed

lemma py_max_constant:
  assumes "xs \<noteq> []" and "\<forall>x \<in> set xs. x = c"
  shows "py_max xs = Inr c"
proof -
  from assms have "set xs = {c}" by (cases xs) auto
  with assms(1) show ?thesis by (simp add: py_max_Max)
qed

lemma normalize_values_constant:
  assumes "\<forall>(k, i) \<in> set iss. \<exists>c. c \<noteq> 0 \<and> (\<forall>(v, w) \<in> set (value_weights i). w = c)"
    and "normalize_values tiw iss = Inr (t, iss')"
  shows "\<forall>(k, i) \<in> set iss'. \<forall>(v, w) \<in> set (value_weights i). w = 1"
  using assms
proof (induction iss arbitrary: tiw t iss')
  case Nil
  then show ?case by simp
next
  case (Cons x rest)
  obtain k i where x: "x = (k, i)" by (cases x)
  from Cons.prems(1) x obtain c where c: "c \<noteq> 0" "\<forall>(v, w) \<in> set (value_weights i). w = c"
    by auto
  have ne: "value_weights i \<noteq> []"
    using Cons.prems(2) x by (auto simp: py_max_Nil Let_def)
  from c(2) have "\<forall>y \<in> set (map snd (value_weights i)). y = c" by auto
  with ne have mx: "py_max (map snd (value_weights i)) = Inr c"
    by (intro py_max_constant) auto
  have dv: "divide_values c (value_weights i) = Inr (map (\<lambda>(v, w). (v, w / c)) (value_weights i))"
    using c(1) by (rule divide_values_map)
  from Cons.prems(2) x mx dv obtain rest' where
    r: "normalize_values (tiw + weight i) rest = Inr (t, rest')"
    and i': "iss' = (k, i\<lparr>value_weights := map (\<lambda>(v, w). (v, w / c)) (value_weights i)\<rparr>) # rest'"
    by (auto simp: Let_def split: sum.splits)
  from Cons.prems(1) have "\<forall>(k, i) \<in> set rest. \<exists>c. c \<noteq> 0 \<and> (\<forall>(v, w) \<in> set (value_weights i). w = c)"
    by simp
  from Cons.IH [OF this r] have "\<forall>(k, i) \<in> set rest'. \<forall>(v, w) \<in> set (value_weights i). w = 1" .
  moreover have "\<forall>(v, w) \<in> set (map (\<lambda>(v, w). (v, w / c)) (value_weights i)). w = 1"
    using c by auto
  ultimately show ?case using i' by simp
qed

lemma normalize_weights_value_weights:
  assumes "normalize_weights tiw iss = Inr iss'"
    and "\<forall>(k, i) \<in> set iss. \<forall>(v, w) \<in> set (value_weights i). w = (1 :: real)"
  shows "\<forall>(k, i) \<in> set iss'. \<forall>(v, w) \<in> set (value_weights i). w = 1"
  using assms
proof (induction iss arbitrary: iss')
  case Nil
  then show ?case by simp
next
  case (Cons x rest)
  obtain k i where x: "x = (k, i)" by (cases x)
  from Cons.prems(1) x obtain rest' where
    r: "normalize_weights tiw rest = Inr rest'"
    and i': "iss' = (k, i\<lparr>weight := weight i / tiw\<rparr>) # rest'"
    by (auto split: if_splits sum.splits)
  from Cons.prems(2) have "\<forall>(k, i) \<in> set rest. \<forall>(v, w) \<in> set (value_weights i). w = 1"
    by simp
  from Cons.IH [OF r this] Cons.prems(2) x i' show ?case by simp
qed

lemma normalize_value_weights_one:
  assumes "\<forall>(k, i) \<in> set (issues m). \<exists>c. c \<noteq> 0 \<and> (\<forall>(v, w) \<in> set (value_weights i). w = c)"
    and "normalize m = Inr m'"
  shows "\<forall>(k, i) \<in> set (issues m'). \<forall>(v, w) \<in> set (value_weights i). w = 1"
proof -
  from assms(2) obtain t is1 is2 where
    a: "normalize_values 0 (issues m) = Inr (t, is1)"
    and b: "normalize_weights t is1 = Inr is2"
    and m': "m' = m\<lparr>issues := is2\<rparr>"
    by (auto simp: normalize_def split: sum.splits)
  from normalize_weights_value_weights [OF b normalize_values_constant [OF assms(1) a]] m'
  show ?thesis by simp
qed

lemma update_weights_loop_value_weights:
  "\<forall>(k, i) \<in> set iss. \<forall>(v, w) \<in> set (value_weights i). w = (1 :: real) \<Longrightarrow>
   \<forall>(k, i) \<in> set (update_weights_loop a t b0 b1 iss). \<forall>(v, w) \<in> set (value_weights i). w = 1"
  by (induction a t b0 b1 iss rule: update_weights_loop.induct) (auto split: if_splits)

lemma update_issue_weights_value_weights:
  "\<forall>(k, i) \<in> set (issues m). \<forall>(v, w) \<in> set (value_weights i). w = (1 :: real) \<Longrightarrow>
   \<forall>(k, i) \<in> set (issues (update_issue_weights m t)). \<forall>(v, w) \<in> set (value_weights i). w = 1"
  by (simp add: update_issue_weights_def Let_def update_weights_loop_value_weights)

lemma q_learning_update_issues:
  "q_learning_update m p c r lr df = Inr m' \<Longrightarrow> issues m' = issues m"
  by (auto simp: q_learning_update_def Let_def split: sum.splits)

lemma update_issues:
  "update m t p c r lr df = Inr m' \<Longrightarrow>
   issues m' = issues m
   \<or> (\<exists>b. issues m' = issues (update_issue_weights (m\<lparr>offers := offers m @ [b]\<rparr>) t))"
  by (auto simp: update_def split: option.splits dest: q_learning_update_issues)

lemma reachable_value_weights:
  "reachable m \<Longrightarrow> \<forall>(k, i) \<in> set (issues m). \<forall>(v, w) \<in> set (value_weights i). w = 1"
proof (induction rule: reachable.induct)
  case (constructed d a g m)
  let ?m0 = "\<lparr>domain = d, alpha = a, gamma = g, offers = [],
              issues = dict_comp (map (\<lambda>(issue, vals). (issue, Issue_init vals)) d),
              q_table = Map.empty\<rparr>"
  from constructed obtain m1 where n: "normalize ?m0 = Inr m1" and m: "m = m1\<lparr>q_table := Map.empty\<rparr>"
    by (auto simp: OpponentModel_init_def split: sum.splits)
  have "\<forall>(k, i) \<in> set (issues ?m0). \<exists>c. c \<noteq> 0 \<and> (\<forall>(v, w) \<in> set (value_weights i). w = c)"
  proof clarify
    fix k i assume "(k, i) \<in> set (issues ?m0)"
    then have "\<forall>(v, w) \<in> set (value_weights i). w = 1 / 10 ^ 10"
      using initial_issues_constant [of k i d] by simp
    then show "\<exists>c. c \<noteq> 0 \<and> (\<forall>(v, w) \<in> set (value_weights i). w = c)"
      by (intro exI [of _ "1 / 10 ^ 10"]) simp
  qed
  from normalize_value_weights_one [OF this n] m show ?case by simp
next
  case (after_update m t prev_bid curr_bid reward lr df m')
  from update_issues [OF after_update.hyps(2)] show ?case
  proof
    assume "issues m' = issues m"
    with after_update.IH show ?thesis by simp
  next
    assume "\<exists>b. issues m' = issues (update_issue_weights (m\<lparr>offers := offers m @ [b]\<rparr>) t)"
    then obtain b where
      e: "issues m' = issues (update_issue_weights (m\<lparr>offers := offers m @ [b]\<rparr>) t)" ..
    from after_update.IH
    have "\<forall>(k, i) \<in> set (issues (m\<lparr>offers := offers m @ [b]\<rparr>)).
        \<forall>(v, w) \<in> set (value_weights i). w = 1" by simp
    from update_issue_weights_value_weights [OF this] e show ?thesis by simp
  qed
next
  case (after_update_issue_weights m t)
  then show ?case by (intro update_issue_weights_value_weights)
next
  case (after_q_learning_update m prev_bid curr_bid reward lr df m')
  then show ?case by (simp add: q_learning_update_issues)
next
  case (after_normalize m m')
  have "\<forall>(k, i) \<in> set (issues m). \<exists>c. c \<noteq> 0 \<and> (\<forall>(v, w) \<in> set (value_weights i). w = c)"
    using after_normalize.IH by (intro ballI) (auto intro!: exI [of _ 1])
  from normalize_value_weights_one [OF this after_normalize.hyps(2)] show ?case .
qed

lemma keys_dict_set: "fst ` set (dict_set d k v) = insert k (fst ` set d)"
  by (induction d k v rule: dict_set.induct) (auto split: if_splits)

lemma keys_foldl_dict_set:
  "fst ` set (foldl (\<lambda>d (k, v). dict_set d k v) d kvs) = fst ` set d \<union> fst ` set kvs"
proof (induction kvs arbitrary: d)
  case Nil
  then show ?case by simp
next
  case (Cons x kvs)
  obtain k v where x: "x = (k, v)" by (cases x)
  from Cons.IH [of "dict_set d k v"] show ?case
    using x by (simp add: keys_dict_set)
qed

lemma Issue_init_keys: "fst ` set (value_weights (Issue_init vals)) = set vals"
  using keys_foldl_dict_set [of "[]" "map (\<lambda>v. (v, 0 + 1 / 10 ^ 10 :: real)) vals"]
  by (simp add: Issue_init_def dict_comp_def image_image)

text \<open>
  C9. In every model a caller can hold (the one the constructor returns, and every model
  returned from such a model by \<open>update\<close>, \<open>update_issue_weights\<close>,
  \<open>q_learning_update\<close> or \<open>normalize\<close>; \<open>get_utility\<close> returns no model), every value
  weight of every issue is 1: the constructor gives every value the same non-zero
  weight and normalizes, and no method of the class changes a value weight otherwise.
  So for every bid that gives each issue a value that is a key of the issue's value
  weights (the keys are the issue's declared values, by \<open>Issue_init_keys\<close>),
  \<open>get_utility\<close> returns the sum of the issue weights.
\<close>

theorem reachable_value_weights_one:
  assumes "reachable m"
  shows "(\<forall>(k, i) \<in> set (issues m). \<forall>(v, w) \<in> set (value_weights i). w = 1)
     \<and> (\<forall>b. (\<forall>(k, i) \<in> set (issues m). \<exists>v. b k = Some v \<and> v \<in> fst ` set (value_weights i))
            \<longrightarrow> get_utility m (Some b) = Inr (\<Sum>(k, i) \<leftarrow> issues m. weight i))"
proof (intro conjI allI impI)
  show one: "\<forall>(k, i) \<in> set (issues m). \<forall>(v, w) \<in> set (value_weights i). w = 1"
    using assms by (rule reachable_value_weights)
  fix b
  assume d: "\<forall>(k, i) \<in> set (issues m). \<exists>v. b k = Some v \<and> v \<in> fst ` set (value_weights i)"
  have "weight i * the (map_of (value_weights i) (the (b k))) = weight i"
    if "(k, i) \<in> set (issues m)" for k i
  proof -
    from d that have "\<exists>v. b k = Some v \<and> v \<in> fst ` set (value_weights i)" by fast
    then obtain v where v: "b k = Some v" "v \<in> fst ` set (value_weights i)" by blast
    then obtain w where w: "map_of (value_weights i) v = Some w"
      by (cases "map_of (value_weights i) v") (auto simp: map_of_eq_None_iff)
    from map_of_SomeD [OF w] one that have "w = 1" by auto
    with v w show ?thesis by simp
  qed
  then have "(\<Sum>(k, i) \<leftarrow> issues m. weight i * the (map_of (value_weights i) (the (b k))))
      = (\<Sum>(k, i) \<leftarrow> issues m. weight i)"
    by (intro arg_cong [where f = sum_list] map_cong) auto
  with get_utility_loop_sum [OF d, of 0] show "get_utility m (Some b) = Inr (\<Sum>(k, i) \<leftarrow> issues m. weight i)"
    by (simp add: get_utility_def)
qed

theorem reachable_value_weights_one_witness:
  "reachable ex_model
   \<and> list_all (\<lambda>(k, i). list_all (\<lambda>(v, w). w = 1) (value_weights i)) (issues ex_model)
   \<and> list_all (\<lambda>(k, i). \<exists>v. ex_bid k = Some v \<and> v \<in> fst ` set (value_weights i)) (issues ex_model)
   \<and> (\<Sum>(k, i) \<leftarrow> issues ex_model. weight i) = 1
   \<and> get_utility ex_model (Some ex_bid) = Inr 1"
proof -
  have "OpponentModel_init ex_domain (1 / 10) (9 / 10) = Inr ex_model"
    using OpponentModel_init_ex [of "1 / 10" "9 / 10"] by (simp add: ex_model_def)
  then have r: "reachable ex_model" by (rule reachable.constructed)
  have d: "\<forall>(k, i) \<in> set (issues ex_model).
      \<exists>v. ex_bid k = Some v \<and> v \<in> fst ` set (value_weights i)"
    by (simp add: ex_model_def ex_issues_def ex_bid_def)
  have s: "(\<Sum>(k, i) \<leftarrow> issues ex_model. weight i) = 1"
    by (simp add: ex_model_def ex_issues_def)
  from reachable_value_weights_one [OF r] d
  have "\<forall>(k, i) \<in> set (issues ex_model). \<forall>(v, w) \<in> set (value_weights i). w = 1"
    and "get_utility ex_model (Some ex_bid) = Inr (\<Sum>(k, i) \<leftarrow> issues ex_model. weight i)"
    by blast+
  with r d s show ?thesis by (simp add: list_all_iff)
qed

end
